theory Spec2Isabelle
  imports Main
begin

section \<open>The settings record\<close>

text \<open>
  \<^verbatim>\<open>utils.ISettings\<close> as \<^verbatim>\<open>src/popup/Settings.tsx\<close> uses it: six fields, the translate
  mode ranging over the six ids of \<^verbatim>\<open>TranslateModeSelector\<close>. JavaScript strings are
  modelled as \<open>string\<close>, one \<open>char\<close> for each code unit, which covers the code units
  \<open>0x00\<close> to \<open>0xFF\<close>; a string holding a code unit above \<open>0xFF\<close> has no counterpart here,
  and every statement below is about the strings that have one. A string is truthy
  exactly when it is not empty.
\<close>

datatype TranslateMode = Translate | Polishing | Summarize | Analyze | ExplainCode | Nop

record ISettings =
  apiKeys :: string
  apiURL :: string
  autoTranslate :: bool
  defaultTranslateMode :: TranslateMode
  defaultTargetLanguage :: string
  hotkey :: string

text \<open>
  The constants \<^verbatim>\<open>utils.defaultAPIURL\<close>, \<^verbatim>\<open>utils.defaultAutoTranslate\<close> and
  \<^verbatim>\<open>utils.defaultTargetLanguage\<close> live in \<^verbatim>\<open>../common/utils\<close>; they are parameters here.
\<close>

record utils =
  defaultAPIURL :: string
  defaultAutoTranslate :: bool
  utils_defaultTargetLanguage :: string

text \<open>How the promise returned by \<^verbatim>\<open>utils.setSettings\<close> settles.\<close>

datatype write_outcome = Resolved | Rejected

text \<open>
  What the component does to the outside, in the order it does it: a call of
  \<^verbatim>\<open>utils.setSettings\<close>, a toast (message and duration in milliseconds; the icon is
  left out), a call of \<^verbatim>\<open>props.onSave\<close>.
\<close>

datatype effect = SetSettings ISettings | Toast string nat | OnSave ISettings

section \<open>The Settings component\<close>

text \<open>
  \<^verbatim>\<open>onBlur\<close> is \<^verbatim>\<open>useCallback(async () => {...}, [values])\<close>: the function object is
  created anew only in a render in which \<^verbatim>\<open>values\<close> is another object than in the
  render before, and it reads the constants \<^verbatim>\<open>values\<close> and \<^verbatim>\<open>prevValues\<close> of the render
  that created it. The closure is therefore part of the state.
\<close>

record onBlur_closure =
  cl_values :: ISettings
  cl_prevValues :: ISettings

record Settings_state =
  loading :: bool
  cur_values :: ISettings
  prevValues :: ISettings
  values_changed :: bool
  onBlur_cb :: onBlur_closure
  onSave_given :: bool
  trace :: "effect list"
  unhandled :: nat

text \<open>
  \<open>cur_values\<close> is the state variable \<^verbatim>\<open>values\<close>. \<open>values_changed\<close> records that
  \<^verbatim>\<open>setValues\<close> was called since the last render: its argument is each time an object of
  its own (the result of \<^verbatim>\<open>getSettings\<close>, the snapshot the form reports). \<open>onSave_given\<close>
  is whether the optional prop \<^verbatim>\<open>onSave\<close> was passed in the first render (\<^verbatim>\<open>onSubmmit\<close> has
  the dependency list \<^verbatim>\<open>[]\<close> and is created once); \<open>unhandled\<close> counts the handler
  promises that rejected (nothing in the file catches one).
\<close>

definition initialValues :: "utils \<Rightarrow> ISettings" where
  "initialValues u =
     \<lparr>apiKeys = [], apiURL = defaultAPIURL u, autoTranslate = defaultAutoTranslate u,
      defaultTranslateMode = Translate,
      defaultTargetLanguage = utils_defaultTargetLanguage u, hotkey = []\<rparr>"

definition Settings_init :: "utils \<Rightarrow> bool \<Rightarrow> Settings_state" where
  "Settings_init u given =
     \<lparr>loading = False, cur_values = initialValues u, prevValues = initialValues u,
      values_changed = False,
      onBlur_cb = \<lparr>cl_values = initialValues u, cl_prevValues = initialValues u\<rparr>,
      onSave_given = given, trace = [], unhandled = 0\<rparr>"

definition setValues :: "ISettings \<Rightarrow> Settings_state \<Rightarrow> Settings_state" where
  "setValues v st = st\<lparr>cur_values := v, values_changed := True\<rparr>"

definition setPrevValues :: "ISettings \<Rightarrow> Settings_state \<Rightarrow> Settings_state" where
  "setPrevValues v st = st\<lparr>prevValues := v\<rparr>"

definition setLoading :: "bool \<Rightarrow> Settings_state \<Rightarrow> Settings_state" where
  "setLoading b st = st\<lparr>loading := b\<rparr>"

definition emit :: "effect \<Rightarrow> Settings_state \<Rightarrow> Settings_state" where
  "emit e st = st\<lparr>trace := trace st @ [e]\<rparr>"

text \<open>A render: \<^verbatim>\<open>useCallback\<close> compares the dependency \<^verbatim>\<open>[values]\<close>.\<close>

definition render :: "Settings_state \<Rightarrow> Settings_state" where
  "render st =
     (if values_changed st
      then st\<lparr>onBlur_cb := \<lparr>cl_values = cur_values st, cl_prevValues = prevValues st\<rparr>,
              values_changed := False\<rparr>
      else st)"

text \<open>
  The effect of mount, once \<^verbatim>\<open>utils.getSettings()\<close> has resolved with \<open>s\<close>:
  \<^verbatim>\<open>setValues(settings); setPrevValues(settings)\<close>. The two updates run after an
  \<^verbatim>\<open>await\<close>; whether React renders once for both or once after each depends on the
  React version, which the flag \<open>batched\<close> chooses.
\<close>

definition getSettings_resolved :: "bool \<Rightarrow> ISettings \<Rightarrow> Settings_state \<Rightarrow> Settings_state" where
  "getSettings_resolved batched s st =
     (if batched then render (setPrevValues s (setValues s st))
      else render (setPrevValues s (render (setValues s st))))"

text \<open>\<^verbatim>\<open>onChange\<close>: \<^verbatim>\<open>setValues(values_)\<close>.\<close>

definition onChange :: "ISettings \<Rightarrow> Settings_state \<Rightarrow> Settings_state" where
  "onChange values' st = setValues values' st"

text \<open>
  \<^verbatim>\<open>onSubmmit\<close>, in two parts: up to the \<^verbatim>\<open>await\<close>, and from it on. A rejected write
  makes the \<^verbatim>\<open>await\<close> throw, which ends the handler there.
\<close>

definition onSubmmit_call :: "ISettings \<Rightarrow> Settings_state \<Rightarrow> Settings_state" where
  "onSubmmit_call data st = emit (SetSettings data) (setLoading True st)"

definition onSubmmit_resume :: "ISettings \<Rightarrow> write_outcome \<Rightarrow> Settings_state \<Rightarrow> Settings_state" where
  "onSubmmit_resume data outcome st =
     (case outcome of
        Rejected \<Rightarrow> st\<lparr>unhandled := unhandled st + 1\<rparr>
      | Resolved \<Rightarrow>
          (let st1 = emit (Toast ''Saved'' 3000) st;
               st2 = setLoading False st1
           in if onSave_given st2 then emit (OnSave data) st2 else st2))"

text \<open>
  \<^verbatim>\<open>onBlur\<close>, in two parts as well. The first reads the closure, not the state; it
  returns the snapshot whose write it started, if any.
\<close>

definition onBlur_call :: "Settings_state \<Rightarrow> ISettings option \<times> Settings_state" where
  "onBlur_call st =
     (let v = cl_values (onBlur_cb st); p = cl_prevValues (onBlur_cb st)
      in if apiKeys v \<noteq> [] \<and> v \<noteq> p then (Some v, emit (SetSettings v) st)
         else (None, st))"

definition onBlur_resume :: "ISettings option \<Rightarrow> write_outcome \<Rightarrow> Settings_state \<Rightarrow> Settings_state" where
  "onBlur_resume pending outcome st =
     (case pending of
        None \<Rightarrow> st
      | Some v \<Rightarrow>
          (case outcome of
             Rejected \<Rightarrow> st\<lparr>unhandled := unhandled st + 1\<rparr>
           | Resolved \<Rightarrow> setPrevValues v st))"

text \<open>
  Modelled from the spec: the form item of \<^verbatim>\<open>createForm\<close> (\<^verbatim>\<open>../components/Form\<close>, which is
  not among the sources) hands its child the \<^verbatim>\<open>onChange\<close> of the field; by the
  specification "every keystroke/selection updates the in-memory snapshot", so the call
  puts the new value into the field and reports the whole snapshot to
  \<^verbatim>\<open>onValuesChange\<close>, which is \<^verbatim>\<open>onChange\<close> of Settings.
\<close>

definition FormItem_autoTranslate_onChange :: "bool \<Rightarrow> Settings_state \<Rightarrow> Settings_state" where
  "FormItem_autoTranslate_onChange checked st =
     onChange ((cur_values st)\<lparr>autoTranslate := checked\<rparr>) st"

text \<open>
  \<^verbatim>\<open>AutoTranslateCheckbox\<close>: \<^verbatim>\<open>props.onChange?.(e.target.checked); props.onBlur?.()\<close>.
  \<^verbatim>\<open>props.onBlur\<close> is the \<^verbatim>\<open>onBlur\<close> of the render that drew the checkbox; both calls
  happen before React renders again.
\<close>

definition AutoTranslateCheckbox_onChange ::
  "bool \<Rightarrow> Settings_state \<Rightarrow> ISettings option \<times> Settings_state" where
  "AutoTranslateCheckbox_onChange checked st =
     onBlur_call (FormItem_autoTranslate_onChange checked st)"

text \<open>
  The events of the component. Each handler runs to its \<^verbatim>\<open>await\<close>, React renders, the
  write settles, the handler finishes, React renders again.
\<close>

datatype event =
    Loaded bool ISettings
  | Change ISettings
  | Submit ISettings write_outcome
  | Blur write_outcome
  | Toggle bool write_outcome

fun step :: "event \<Rightarrow> Settings_state \<Rightarrow> Settings_state" where
  "step (Loaded batched s) st = getSettings_resolved batched s st"
| "step (Change v) st = render (onChange v st)"
| "step (Submit d outcome) st =
     render (onSubmmit_resume d outcome (render (onSubmmit_call d st)))"
| "step (Blur outcome) st =
     (case onBlur_call st of
        (pending, st1) \<Rightarrow> render (onBlur_resume pending outcome (render st1)))"
| "step (Toggle checked outcome) st =
     (case AutoTranslateCheckbox_onChange checked st of
        (pending, st1) \<Rightarrow> render (onBlur_resume pending outcome (render st1)))"

fun run :: "event list \<Rightarrow> Settings_state \<Rightarrow> Settings_state" where
  "run [] st = st"
| "run (e # es) st = run es (step e st)"

text \<open>The snapshots written so far, oldest first.\<close>

fun writes :: "effect list \<Rightarrow> ISettings list" where
  "writes [] = []"
| "writes (SetSettings d # es) = d # writes es"
| "writes (_ # es) = writes es"

text \<open>Sample inputs for the closed statements below.\<close>

definition example_utils :: utils where
  "example_utils =
     \<lparr>defaultAPIURL = ''https://api.openai.com'', defaultAutoTranslate = False,
      utils_defaultTargetLanguage = ''en''\<rparr>"

definition example_settings :: ISettings where
  "example_settings =
     \<lparr>apiKeys = ''sk-1'', apiURL = ''https://api.openai.com'', autoTranslate = False,
      defaultTranslateMode = Translate, defaultTargetLanguage = ''en'', hotkey = ''ctrl+k''\<rparr>"

section \<open>String operations of the hotkey recorder\<close>

text \<open>
  The JavaScript string methods the recorder calls, on \<open>string\<close>, for the code units
  \<open>0x00\<close> to \<open>0xFF\<close>. \<^verbatim>\<open>toLowerCase\<close> maps \<open>A\<close>..\<open>Z\<close> and the capital letters \<open>0xC0\<close>..\<open>0xDE\<close>
  (without the multiplication sign \<open>0xD7\<close>) to the code unit 32 higher and leaves the
  others alone. \<^verbatim>\<open>trim\<close> removes white space and line terminators from both ends; below
  \<open>0x100\<close> these are tab, line feed, vertical tab, form feed, carriage return, space and
  the no-break space \<open>0xA0\<close>.
\<close>

definition upper_letters :: "char list" where
  "upper_letters = ''ABCDEFGHIJKLMNOPQRSTUVWXYZ'' @ [
      CHR 0xC0, CHR 0xC1, CHR 0xC2, CHR 0xC3, CHR 0xC4, CHR 0xC5, CHR 0xC6, CHR 0xC7,
      CHR 0xC8, CHR 0xC9, CHR 0xCA, CHR 0xCB, CHR 0xCC, CHR 0xCD, CHR 0xCE, CHR 0xCF,
      CHR 0xD0, CHR 0xD1, CHR 0xD2, CHR 0xD3, CHR 0xD4, CHR 0xD5, CHR 0xD6, CHR 0xD8,
      CHR 0xD9, CHR 0xDA, CHR 0xDB, CHR 0xDC, CHR 0xDD, CHR 0xDE]"

definition lower_letters :: "char list" where
  "lower_letters = ''abcdefghijklmnopqrstuvwxyz'' @ [
      CHR 0xE0, CHR 0xE1, CHR 0xE2, CHR 0xE3, CHR 0xE4, CHR 0xE5, CHR 0xE6, CHR 0xE7,
      CHR 0xE8, CHR 0xE9, CHR 0xEA, CHR 0xEB, CHR 0xEC, CHR 0xED, CHR 0xEE, CHR 0xEF,
      CHR 0xF0, CHR 0xF1, CHR 0xF2, CHR 0xF3, CHR 0xF4, CHR 0xF5, CHR 0xF6, CHR 0xF8,
      CHR 0xF9, CHR 0xFA, CHR 0xFB, CHR 0xFC, CHR 0xFD, CHR 0xFE]"

definition char_lower :: "char \<Rightarrow> char" where
  "char_lower c =
     (case map_of (zip upper_letters lower_letters) c of
        Some l \<Rightarrow> l
      | None \<Rightarrow> c)"

definition toLowerCase :: "string \<Rightarrow> string" where
  "toLowerCase s = map char_lower s"

definition is_space :: "char \<Rightarrow> bool" where
  "is_space c =
     (c \<in> set [CHR 0x09, CHR 0x0A, CHR 0x0B, CHR 0x0C, CHR 0x0D, CHR '' '', CHR 0xA0])"

definition str_trim :: "string \<Rightarrow> string" where
  "str_trim s = rev (dropWhile is_space (rev (dropWhile is_space s)))"

text \<open>\<^verbatim>\<open>s.replace(/-/g, '+')\<close>\<close>

definition replace_minus :: "string \<Rightarrow> string" where
  "replace_minus s = map (\<lambda>c. if c = CHR ''-'' then CHR ''+'' else c) s"

text \<open>\<^verbatim>\<open>s.split(sep)\<close> for a separator of one character: \<^verbatim>\<open>''.split('+')\<close> is \<^verbatim>\<open>['']\<close>.\<close>

fun str_split :: "char \<Rightarrow> string \<Rightarrow> string list" where
  "str_split sep [] = [[]]"
| "str_split sep (c # cs) =
     (if c = sep then [] # str_split sep cs
      else (c # hd (str_split sep cs)) # tl (str_split sep cs))"

text \<open>\<^verbatim>\<open>ks.join(sep)\<close>\<close>

fun str_join :: "string \<Rightarrow> string list \<Rightarrow> string" where
  "str_join sep [] = []"
| "str_join sep [k] = k"
| "str_join sep (k # k' # ks) = k @ sep @ str_join sep (k' # ks)"

section \<open>The HotkeyRecorder component\<close>

text \<open>
  \<open>keys\<close> and \<open>isRecording\<close> are what \<^verbatim>\<open>useRecordHotkeys()\<close> returns (the set of keys in
  insertion order, as \<^verbatim>\<open>Array.from\<close> lists it), \<open>hotKeys\<close> is the component's own state,
  \<open>props_value\<close> the prop \<^verbatim>\<open>value\<close> of the last render. \<open>emitted\<close> lists the arguments of
  the calls of \<^verbatim>\<open>props.onChange\<close>, oldest first; \<open>blurred\<close> counts the calls of
  \<^verbatim>\<open>props.onBlur\<close>.
\<close>

record HotkeyRecorder_state =
  keys :: "string list"
  isRecording :: bool
  hotKeys :: "string list"
  props_value :: "string option"
  emitted :: "string list"
  blurred :: nat

definition setHotKeys :: "string list \<Rightarrow> HotkeyRecorder_state \<Rightarrow> HotkeyRecorder_state" where
  "setHotKeys ks st = st\<lparr>hotKeys := ks\<rparr>"

definition props_onChange :: "string \<Rightarrow> HotkeyRecorder_state \<Rightarrow> HotkeyRecorder_state" where
  "props_onChange s st = st\<lparr>emitted := emitted st @ [s]\<rparr>"

definition props_onBlur :: "HotkeyRecorder_state \<Rightarrow> HotkeyRecorder_state" where
  "props_onBlur st = st\<lparr>blurred := blurred st + 1\<rparr>"

text \<open>The argument of \<^verbatim>\<open>setHotKeys\<close> in the effect on \<^verbatim>\<open>[props.value]\<close>.\<close>

definition parse_value :: "string \<Rightarrow> string list" where
  "parse_value s =
     filter (\<lambda>k. k \<noteq> []) (map str_trim (str_split CHR ''+'' (replace_minus s)))"

definition effect_value :: "string option \<Rightarrow> HotkeyRecorder_state \<Rightarrow> HotkeyRecorder_state" where
  "effect_value v st =
     (case v of
        None \<Rightarrow> st
      | Some s \<Rightarrow> if s \<noteq> [] then setHotKeys (parse_value s) st else st)"

text \<open>The effect on \<^verbatim>\<open>[keys]\<close>.\<close>

definition effect_keys :: "HotkeyRecorder_state \<Rightarrow> HotkeyRecorder_state" where
  "effect_keys st =
     (let keys' = keys st
      in if length keys' > 0
         then (let keys'' = filter (\<lambda>k. toLowerCase k \<noteq> ''meta'') keys'
               in props_onChange (str_join ''+'' keys'') (setHotKeys keys'' st))
         else st)"

text \<open>
  The effect on \<^verbatim>\<open>[isRecording]\<close>. It reads the constant \<^verbatim>\<open>hotKeys\<close> of the render it
  belongs to, which is its first argument.
\<close>

definition effect_isRecording :: "string list \<Rightarrow> HotkeyRecorder_state \<Rightarrow> HotkeyRecorder_state" where
  "effect_isRecording rendered st =
     (if \<not> isRecording st then props_onChange (str_join ''+'' rendered) st else st)"

text \<open>
  \<^verbatim>\<open>useRecordHotkeys\<close> of react-hotkeys-hook: \<^verbatim>\<open>start\<close> empties the key set and turns
  recording on, \<^verbatim>\<open>stop\<close> turns it off, and the key listener, installed while recording,
  adds the name of the key to the set.
\<close>

definition start :: "HotkeyRecorder_state \<Rightarrow> HotkeyRecorder_state" where
  "start st = st\<lparr>keys := [], isRecording := True\<rparr>"

definition stop :: "HotkeyRecorder_state \<Rightarrow> HotkeyRecorder_state" where
  "stop st = st\<lparr>isRecording := False\<rparr>"

definition keydown :: "string \<Rightarrow> HotkeyRecorder_state \<Rightarrow> HotkeyRecorder_state" where
  "keydown k st = st\<lparr>keys := (if k \<in> set (keys st) then keys st else keys st @ [k])\<rparr>"

text \<open>
  Mounting runs the three effects in the order of the source, all of them in the first
  render, where \<^verbatim>\<open>hotKeys\<close> is \<^verbatim>\<open>[]\<close>.
\<close>

definition HotkeyRecorder_mount :: "string option \<Rightarrow> HotkeyRecorder_state" where
  "HotkeyRecorder_mount v =
     effect_isRecording []
       (effect_keys
         (effect_value v
           \<lparr>keys = [], isRecording = False, hotKeys = [], props_value = v,
            emitted = [], blurred = 0\<rparr>))"

text \<open>
  The events: the parent passes a value, a click on the recorder, a click elsewhere in
  the document, a key press. After each, React renders and runs the effects whose
  dependency changed.
\<close>

datatype recorder_event =
    PropsValue "string option"
  | ClickSurface
  | ClickDocument
  | KeyDown string

fun recorder_step :: "recorder_event \<Rightarrow> HotkeyRecorder_state \<Rightarrow> HotkeyRecorder_state" where
  "recorder_step (PropsValue v) st =
     (if v = props_value st then st else effect_value v (st\<lparr>props_value := v\<rparr>))"
| "recorder_step ClickSurface st =
     (if \<not> isRecording st then effect_isRecording (hotKeys st) (effect_keys (start st))
      else effect_isRecording (hotKeys st) (stop st))"
| "recorder_step ClickDocument st =
     (if isRecording st then effect_isRecording (hotKeys st) (props_onBlur (stop st))
      else st)"
| "recorder_step (KeyDown k) st =
     (if isRecording st then effect_keys (keydown k st) else st)"

fun recorder_run :: "recorder_event list \<Rightarrow> HotkeyRecorder_state \<Rightarrow> HotkeyRecorder_state" where
  "recorder_run [] st = st"
| "recorder_run (e # es) st = recorder_run es (recorder_step e st)"

text \<open>
  The components of a committed hotkey are the pieces between its \<open>+\<close> signs; one of them
  is the meta key when it reads \<open>meta\<close> in lower case.
\<close>

definition has_meta :: "string \<Rightarrow> bool" where
  "has_meta s = (''meta'' \<in> set (map toLowerCase (str_split CHR ''+'' s)))"

text \<open>
  The seeding as the specification words it: both \<open>+\<close> and \<open>-\<close> separate, every piece is
  trimmed.
\<close>

fun split_plus_minus :: "string \<Rightarrow> string list" where
  "split_plus_minus [] = [[]]"
| "split_plus_minus (c # cs) =
     (if c = CHR ''+'' \<or> c = CHR ''-'' then [] # split_plus_minus cs
      else (c # hd (split_plus_minus cs)) # tl (split_plus_minus cs))"

definition spec_seed :: "string \<Rightarrow> string list" where
  "spec_seed s = map str_trim (split_plus_minus s)"

text \<open>
  What the statement about the meta key asks of the inputs: a key name as the key
  recorder reports it holds no \<open>+\<close>, and an external value names no meta key.
\<close>

definition plus_free :: "string \<Rightarrow> bool" where
  "plus_free k = (CHR ''+'' \<notin> set k)"

definition good_key :: "string \<Rightarrow> bool" where
  "good_key k = (toLowerCase k \<noteq> ''meta'' \<and> plus_free k)"

definition clean_value :: "string option \<Rightarrow> bool" where
  "clean_value v =
     (case v of
        None \<Rightarrow> True
      | Some s \<Rightarrow> list_all (\<lambda>k. toLowerCase k \<noteq> ''meta'') (parse_value s))"

fun clean_event :: "recorder_event \<Rightarrow> bool" where
  "clean_event (PropsValue v) = clean_value v"
| "clean_event (KeyDown k) = plus_free k"
| "clean_event ClickSurface = True"
| "clean_event ClickDocument = True"

definition recorder_inv :: "HotkeyRecorder_state \<Rightarrow> bool" where
  "recorder_inv st =
     (list_all good_key (hotKeys st) \<and> list_all plus_free (keys st) \<and>
      list_all (\<lambda>s. \<not> has_meta s) (emitted st))"

section \<open>Facts about the string operations\<close>

lemma str_split_not_Nil: "str_split c s \<noteq> []"
  by (induction s) auto

lemma str_split_no_sep: "c \<notin> set s \<Longrightarrow> str_split c s = [s]"
  by (induction s) auto

lemma str_split_append: "c \<notin> set xs \<Longrightarrow> str_split c (xs @ c # ys) = xs # str_split c ys"
  by (induction xs) auto

lemma str_split_pieces: "k \<in> set (str_split c s) \<Longrightarrow> c \<notin> set k"
proof (induction s arbitrary: k)
  case Nil
  then show ?case by simp
next
  case (Cons a s)
  show ?case
  proof (cases "a = c")
    case True
    with Cons show ?thesis by auto
  next
    case False
    obtain p ps where ps: "str_split c s = p # ps"
      using str_split_not_Nil [of c s] by (cases "str_split c s") auto
    with Cons False show ?thesis by auto
  qed
qed

lemma str_split_join:
  "list_all (\<lambda>k. c \<notin> set k) ks \<Longrightarrow> ks \<noteq> [] \<Longrightarrow> str_split c (str_join [c] ks) = ks"
proof (induction ks)
  case Nil
  then show ?case by simp
next
  case (Cons k ks)
  show ?case
  proof (cases ks)
    case Nil
    with Cons.prems show ?thesis by (simp add: str_split_no_sep)
  next
    case (Cons k' ks')
    with Cons.IH Cons.prems show ?thesis by (simp add: str_split_append)
  qed
qed

lemma set_str_trim: "set (str_trim s) \<subseteq> set s"
proof -
  have "set (str_trim s) = set (dropWhile is_space (rev (dropWhile is_space s)))"
    by (simp add: str_trim_def)
  also have "\<dots> \<subseteq> set (rev (dropWhile is_space s))"
    by (rule set_dropWhileD [THEN subsetI])
  also have "\<dots> \<subseteq> set s"
    using set_dropWhileD [of _ is_space s] by auto
  finally show ?thesis .
qed

lemma split_plus_minus_eq: "str_split CHR ''+'' (replace_minus s) = split_plus_minus s"
  by (induction s) (auto simp: replace_minus_def)

lemmas recorder_defs = HotkeyRecorder_mount_def effect_value_def effect_keys_def
  effect_isRecording_def start_def stop_def keydown_def props_onChange_def props_onBlur_def
  setHotKeys_def Let_def

lemmas string_defs = parse_value_def replace_minus_def str_trim_def is_space_def
  toLowerCase_def char_lower_def upper_letters_def lower_letters_def has_meta_def spec_seed_def

text \<open>
  The no-break space is trimmed like the space: a value that reads \<open>meta\<close> followed by a
  no-break space seeds the key \<open>meta\<close>, and is not a clean value.
\<close>

lemma parse_value_no_break_space:
  "parse_value (''ctrl+'' @ [CHR 0xA0] @ ''k'' @ [CHR 0xA0]) = [''ctrl'', ''k'']"
  "parse_value (''ctrl+'' @ [CHR 0xA0]) = [''ctrl'']"
  "parse_value (''meta'' @ [CHR 0xA0] @ ''+k'') = [''meta'', ''k'']"
  "\<not> clean_value (Some (''meta'' @ [CHR 0xA0] @ ''+k''))"
  by (simp_all add: clean_value_def string_defs)

lemma toLowerCase_examples:
  "toLowerCase ''Meta'' = ''meta''"
  "toLowerCase ''META'' = ''meta''"
  "toLowerCase [CHR 0xC9, CHR 0xD7, CHR 0xDF] = [CHR 0xE9, CHR 0xD7, CHR 0xDF]"
  by (simp_all add: string_defs)

section \<open>The hotkey recorder and the meta key\<close>

lemma join_good_no_meta: "list_all good_key ks \<Longrightarrow> \<not> has_meta (str_join ''+'' ks)"
proof (cases "ks = []")
  case True
  then show ?thesis by (simp add: has_meta_def toLowerCase_def)
next
  case False
  assume g: "list_all good_key ks"
  then have "list_all (\<lambda>k. CHR ''+'' \<notin> set k) ks"
    by (simp add: good_key_def plus_free_def list_all_iff)
  with False have "str_split CHR ''+'' (str_join ''+'' ks) = ks"
    by (rule_tac str_split_join)
  with g show ?thesis
    by (auto simp: has_meta_def good_key_def list_all_iff)
qed

lemma filter_meta_good:
  "list_all plus_free ks \<Longrightarrow> list_all good_key (filter (\<lambda>k. toLowerCase k \<noteq> ''meta'') ks)"
  by (auto simp: list_all_iff good_key_def)

lemma parse_value_plus_free: "list_all plus_free (parse_value s)"
proof -
  have "plus_free k" if "k \<in> set (parse_value s)" for k
  proof -
    from that obtain p where p: "p \<in> set (str_split CHR ''+'' (replace_minus s))" and k: "k = str_trim p"
      by (auto simp: parse_value_def)
    from p have "CHR ''+'' \<notin> set p" by (rule str_split_pieces)
    with k set_str_trim [of p] show ?thesis by (auto simp: plus_free_def)
  qed
  then show ?thesis by (simp add: list_all_iff)
qed

lemma clean_value_good: "clean_value (Some s) \<Longrightarrow> list_all good_key (parse_value s)"
  using parse_value_plus_free [of s] by (auto simp: clean_value_def good_key_def list_all_iff)

lemma inv_effect_value: "clean_value v \<Longrightarrow> recorder_inv st \<Longrightarrow> recorder_inv (effect_value v (st\<lparr>props_value := w\<rparr>))"
  by (cases v) (auto simp: recorder_inv_def effect_value_def setHotKeys_def dest: clean_value_good)

lemma inv_effect_keys: "recorder_inv st \<Longrightarrow> recorder_inv (effect_keys st)"
  by (simp add: recorder_inv_def effect_keys_def setHotKeys_def props_onChange_def Let_def
      filter_meta_good join_good_no_meta)

lemma inv_effect_isRecording:
  "list_all good_key h \<Longrightarrow> recorder_inv st \<Longrightarrow> recorder_inv (effect_isRecording h st)"
  by (simp add: recorder_inv_def effect_isRecording_def props_onChange_def join_good_no_meta)

lemma inv_start: "recorder_inv st \<Longrightarrow> recorder_inv (start st)"
  by (simp add: recorder_inv_def start_def)

lemma inv_stop: "recorder_inv st \<Longrightarrow> recorder_inv (stop st)"
  by (simp add: recorder_inv_def stop_def)

lemma inv_props_onBlur: "recorder_inv st \<Longrightarrow> recorder_inv (props_onBlur st)"
  by (simp add: recorder_inv_def props_onBlur_def)

lemma inv_keydown: "plus_free k \<Longrightarrow> recorder_inv st \<Longrightarrow> recorder_inv (keydown k st)"
  by (simp add: recorder_inv_def keydown_def)

lemma hotKeys_frame [simp]:
  "hotKeys (start st) = hotKeys st" "hotKeys (stop st) = hotKeys st"
  "hotKeys (props_onBlur st) = hotKeys st" "hotKeys (keydown k st) = hotKeys st"
  by (simp_all add: start_def stop_def props_onBlur_def keydown_def)

lemma inv_hotKeys: "recorder_inv st \<Longrightarrow> list_all good_key (hotKeys st)"
  by (simp add: recorder_inv_def)

lemma inv_step: "clean_event e \<Longrightarrow> recorder_inv st \<Longrightarrow> recorder_inv (recorder_step e st)"
proof (cases e)
  case (PropsValue v)
  assume "clean_event e" "recorder_inv st"
  with PropsValue show ?thesis by (simp add: inv_effect_value)
next
  case ClickSurface
  assume "recorder_inv st"
  with ClickSurface show ?thesis
    by (simp add: inv_effect_isRecording inv_effect_keys inv_start inv_stop inv_hotKeys)
next
  case ClickDocument
  assume "recorder_inv st"
  with ClickDocument show ?thesis
    by (simp add: inv_effect_isRecording inv_props_onBlur inv_stop inv_hotKeys)
next
  case (KeyDown k)
  assume "clean_event e" "recorder_inv st"
  with KeyDown show ?thesis by (simp add: inv_effect_keys inv_keydown)
qed

lemma inv_run: "list_all clean_event es \<Longrightarrow> recorder_inv st \<Longrightarrow> recorder_inv (recorder_run es st)"
  by (induction es arbitrary: st) (simp_all add: inv_step)

lemma inv_mount: "clean_value v \<Longrightarrow> recorder_inv (HotkeyRecorder_mount v)"
proof -
  assume c: "clean_value v"
  let ?st0 = "\<lparr>keys = [], isRecording = False, hotKeys = [], props_value = v, emitted = [], blurred = 0\<rparr>"
  have "recorder_inv ?st0" by (simp add: recorder_inv_def)
  with c have "recorder_inv (effect_value v (?st0\<lparr>props_value := v\<rparr>))" by (rule inv_effect_value)
  then have "recorder_inv (effect_keys (effect_value v ?st0))" by (simp add: inv_effect_keys)
  then show ?thesis unfolding HotkeyRecorder_mount_def by (simp add: inv_effect_isRecording)
qed

text \<open>
  C4. Every value the recorder commits through \<^verbatim>\<open>props.onChange\<close>, while recording or on
  the way back to idle, is free of a component \<open>meta\<close> in any letter case, as long as the
  key names reported by the key recorder hold no \<open>+\<close> and no external value passed as
  \<^verbatim>\<open>props.value\<close> names the meta key. The effect on \<^verbatim>\<open>[keys]\<close> removes the meta key from
  what was captured; the effect on \<^verbatim>\<open>[isRecording]\<close> commits the displayed keys as they
  are, and those may have been seeded, unfiltered, from the external value.
\<close>

theorem committed_hotkey_has_no_meta:
  assumes "clean_value v" and "list_all clean_event es"
  shows "list_all (\<lambda>s. \<not> has_meta s) (emitted (recorder_run es (HotkeyRecorder_mount v)))"
proof -
  from assms have "recorder_inv (recorder_run es (HotkeyRecorder_mount v))"
    by (simp add: inv_run inv_mount)
  then show ?thesis by (simp add: recorder_inv_def)
qed

theorem committed_hotkey_has_no_meta_witness:
  "clean_value (Some ''ctrl-k'')
   \<and> list_all clean_event
        [ClickSurface, KeyDown ''ctrl'', KeyDown ''Meta'', KeyDown ''k'', ClickDocument]
   \<and> list_all (\<lambda>s. \<not> has_meta s)
        (emitted (recorder_run
           [ClickSurface, KeyDown ''ctrl'', KeyDown ''Meta'', KeyDown ''k'', ClickDocument]
           (HotkeyRecorder_mount (Some ''ctrl-k''))))
   \<and> emitted (recorder_run
           [ClickSurface, KeyDown ''ctrl'', KeyDown ''Meta'', KeyDown ''k'', ClickDocument]
           (HotkeyRecorder_mount (Some ''ctrl-k'')))
       = ['''', ''ctrl'', ''ctrl'', ''ctrl+k'', ''ctrl+k'']"
proof -
  have a: "clean_value (Some ''ctrl-k'')"
    by (simp add: clean_value_def string_defs)
  have b: "list_all clean_event
             [ClickSurface, KeyDown ''ctrl'', KeyDown ''Meta'', KeyDown ''k'', ClickDocument]"
    by (simp add: plus_free_def)
  have c: "emitted (recorder_run
             [ClickSurface, KeyDown ''ctrl'', KeyDown ''Meta'', KeyDown ''k'', ClickDocument]
             (HotkeyRecorder_mount (Some ''ctrl-k'')))
           = ['''', ''ctrl'', ''ctrl'', ''ctrl+k'', ''ctrl+k'']"
    by (simp add: recorder_defs string_defs)
  from a b c committed_hotkey_has_no_meta [OF a b] show ?thesis by simp
qed

text \<open>
  Without the condition on the external value the statement fails: seeded with \<open>meta+k\<close>, a
  recording in which no key is pressed commits \<open>meta+k\<close> when it stops.
\<close>

theorem seeded_meta_is_committed:
  "has_meta (last (emitted (recorder_run [ClickSurface, ClickDocument]
                              (HotkeyRecorder_mount (Some ''meta+k'')))))"
  by (simp add: recorder_defs string_defs)

section \<open>Stopping a recording, seeding, clearing\<close>

lemma parse_value_spec: "parse_value s = filter (\<lambda>k. k \<noteq> []) (spec_seed s)"
  by (simp add: parse_value_def spec_seed_def split_plus_minus_eq)

text \<open>
  C5. A recording in which no key is pressed leaves the displayed keys as they were, and
  the value committed when it stops, by a click elsewhere or by a second click on the
  recorder, is those keys joined with \<open>+\<close>. It is the empty string when no keys were
  displayed, as after mounting without a value.
\<close>

theorem idle_commits_displayed_keys:
  assumes "\<not> isRecording st"
  shows "emitted (recorder_run [ClickSurface, ClickDocument] st)
           = emitted st @ [str_join ''+'' (hotKeys st)]
       \<and> emitted (recorder_run [ClickSurface, ClickSurface] st)
           = emitted st @ [str_join ''+'' (hotKeys st)]
       \<and> hotKeys (recorder_run [ClickSurface, ClickDocument] st) = hotKeys st
       \<and> hotKeys (recorder_run [ClickSurface, ClickSurface] st) = hotKeys st
       \<and> emitted (recorder_run [ClickSurface, ClickDocument] (HotkeyRecorder_mount None))
           = ['''', '''']"
  using assms by (simp add: recorder_defs)

theorem idle_commits_displayed_keys_witness:
  "\<not> isRecording (HotkeyRecorder_mount (Some ''shift+a''))
   \<and> emitted (recorder_run [ClickSurface, ClickDocument] (HotkeyRecorder_mount (Some ''shift+a'')))
       = ['''', ''shift+a'']
   \<and> hotKeys (recorder_run [ClickSurface, ClickDocument] (HotkeyRecorder_mount (Some ''shift+a'')))
       = [''shift'', ''a'']"
proof -
  have a: "\<not> isRecording (HotkeyRecorder_mount (Some ''shift+a''))"
    by (simp add: recorder_defs)
  have b: "emitted (HotkeyRecorder_mount (Some ''shift+a'')) = ['''']"
    by (simp add: recorder_defs)
  have c: "hotKeys (HotkeyRecorder_mount (Some ''shift+a'')) = [''shift'', ''a'']"
    by (simp add: recorder_defs string_defs)
  from a b c idle_commits_displayed_keys [OF a] show ?thesis by simp
qed

text \<open>
  With keys on display the committed value is not empty: seeded with \<open>ctrl+k\<close>, the empty
  recording commits \<open>ctrl+k\<close>.
\<close>

theorem empty_recording_commits_seeded_keys:
  "emitted (recorder_run [ClickSurface, ClickDocument] (HotkeyRecorder_mount (Some ''ctrl+k'')))
     = ['''', ''ctrl+k'']"
  by (simp add: recorder_defs string_defs)

text \<open>
  C6. A non-empty external value, at mount or when it changes, seeds the displayed keys
  with its pieces between \<open>+\<close> and \<open>-\<close> signs, each trimmed, without the pieces that are
  empty after trimming. \<open>ctrl-k\<close>, \<open>ctrl+k\<close> and \<open>ctrl + k\<close> all seed \<open>ctrl\<close>, \<open>k\<close>.
\<close>

theorem seed_is_trimmed_nonempty_pieces:
  assumes "s \<noteq> []" and "Some s \<noteq> props_value st"
  shows "hotKeys (recorder_step (PropsValue (Some s)) st) = filter (\<lambda>k. k \<noteq> []) (spec_seed s)
       \<and> hotKeys (HotkeyRecorder_mount (Some s)) = filter (\<lambda>k. k \<noteq> []) (spec_seed s)
       \<and> parse_value ''ctrl-k'' = [''ctrl'', ''k'']
       \<and> parse_value ''ctrl+k'' = [''ctrl'', ''k'']
       \<and> parse_value ''ctrl + k'' = [''ctrl'', ''k'']"
proof -
  have "hotKeys (recorder_step (PropsValue (Some s)) st) = parse_value s"
    using assms by (simp add: effect_value_def setHotKeys_def)
  moreover have "hotKeys (HotkeyRecorder_mount (Some s)) = parse_value s"
    using assms by (simp add: recorder_defs)
  moreover have "parse_value ''ctrl-k'' = [''ctrl'', ''k'']"
    by (simp add: string_defs)
  moreover have "parse_value ''ctrl+k'' = [''ctrl'', ''k'']"
    by (simp add: string_defs)
  moreover have "parse_value ''ctrl + k'' = [''ctrl'', ''k'']"
    by (simp add: string_defs)
  ultimately show ?thesis by (simp add: parse_value_spec)
qed

theorem seed_is_trimmed_nonempty_pieces_witness:
  "''ctrl - k'' \<noteq> []
   \<and> Some ''ctrl - k'' \<noteq> props_value (HotkeyRecorder_mount (Some ''alt+x''))
   \<and> hotKeys (recorder_step (PropsValue (Some ''ctrl - k'')) (HotkeyRecorder_mount (Some ''alt+x'')))
       = [''ctrl'', ''k'']"
proof -
  have a: "''ctrl - k'' \<noteq> []" by simp
  have b: "Some ''ctrl - k'' \<noteq> props_value (HotkeyRecorder_mount (Some ''alt+x''))"
    by (simp add: recorder_defs)
  have c: "filter (\<lambda>k. k \<noteq> []) (spec_seed ''ctrl - k'') = [''ctrl'', ''k'']"
    by (simp add: string_defs)
  from a b c seed_is_trimmed_nonempty_pieces [OF a b] show ?thesis by simp
qed

text \<open>
  Splitting and trimming alone is not what is seeded: \<open>ctrl+\<close> has an empty second piece,
  which the recorder drops.
\<close>

theorem seed_drops_empty_piece:
  "hotKeys (recorder_step (PropsValue (Some ''ctrl+'')) (HotkeyRecorder_mount None)) = [''ctrl'']
   \<and> spec_seed ''ctrl+'' = [''ctrl'', '''']"
  by (simp add: recorder_defs string_defs)

text \<open>
  C10. An external value that is absent or the empty string leaves the displayed keys
  unchanged: clearing the hotkey from outside does not clear what the recorder shows.
\<close>

theorem falsy_value_keeps_hotKeys:
  "hotKeys (recorder_step (PropsValue None) st) = hotKeys st
   \<and> hotKeys (recorder_step (PropsValue (Some '''')) st) = hotKeys st
   \<and> hotKeys (recorder_run [PropsValue (Some '''')] (HotkeyRecorder_mount (Some ''ctrl+k'')))
       = [''ctrl'', ''k'']"
  by (simp add: recorder_defs string_defs)

section \<open>The Settings component: what each event does\<close>

lemmas handler_defs = setValues_def setPrevValues_def setLoading_def emit_def render_def
  getSettings_resolved_def onChange_def onSubmmit_call_def onSubmmit_resume_def
  onBlur_call_def onBlur_resume_def FormItem_autoTranslate_onChange_def
  AutoTranslateCheckbox_onChange_def Let_def

lemmas example_defs = Settings_init_def initialValues_def example_settings_def example_utils_def

lemma writes_append [simp]: "writes (xs @ ys) = writes xs @ writes ys"
  by (induction xs rule: writes.induct) simp_all

lemma step_Change:
  "cur_values (step (Change v) st) = v"
  "prevValues (step (Change v) st) = prevValues st"
  "onBlur_cb (step (Change v) st) = \<lparr>cl_values = v, cl_prevValues = prevValues st\<rparr>"
  "values_changed (step (Change v) st) = False"
  "trace (step (Change v) st) = trace st"
  by (simp_all add: handler_defs)

lemma step_Submit_trace:
  "trace (step (Submit d oc) st) = trace st @ [SetSettings d] @
     (case oc of Rejected \<Rightarrow> []
      | Resolved \<Rightarrow> Toast ''Saved'' 3000 # (if onSave_given st then [OnSave d] else []))"
  by (cases oc) (simp_all add: handler_defs)

lemma step_Submit_frame:
  "prevValues (step (Submit d oc) st) = prevValues st"
  "cur_values (step (Submit d oc) st) = cur_values st"
  "\<not> values_changed st \<Longrightarrow> onBlur_cb (step (Submit d oc) st) = onBlur_cb st"
  by (cases oc; simp add: handler_defs)+

lemma step_Submit_loading:
  "loading (step (Submit d oc) st) = (case oc of Rejected \<Rightarrow> True | Resolved \<Rightarrow> False)"
  "unhandled (step (Submit d oc) st) = (case oc of Rejected \<Rightarrow> unhandled st + 1 | Resolved \<Rightarrow> unhandled st)"
  by (cases oc; simp add: handler_defs)+

text \<open>
  The handler decides on the closure: it writes exactly when the captured snapshot has
  an API key and differs from the captured baseline.
\<close>

lemma step_Blur_trace:
  "trace (step (Blur oc) st) = trace st @
     (if apiKeys (cl_values (onBlur_cb st)) \<noteq> [] \<and>
         cl_values (onBlur_cb st) \<noteq> cl_prevValues (onBlur_cb st)
      then [SetSettings (cl_values (onBlur_cb st))] else [])"
  by (cases oc) (simp_all add: handler_defs)

text \<open>
  Between events the captured snapshot is the current one; only the captured baseline
  can be out of date.
\<close>

lemma step_closure_values:
  assumes "cl_values (onBlur_cb st) = cur_values st" and "\<not> values_changed st"
  shows "cl_values (onBlur_cb (step e st)) = cur_values (step e st)
         \<and> \<not> values_changed (step e st)"
proof (cases e)
  case (Loaded b s)
  then show ?thesis by (simp add: handler_defs)
next
  case (Change v)
  then show ?thesis by (simp add: handler_defs)
next
  case (Submit d oc)
  with assms show ?thesis by (cases oc) (simp_all add: handler_defs)
next
  case (Blur oc)
  with assms show ?thesis by (cases oc) (simp_all add: handler_defs)
next
  case (Toggle b oc)
  with assms show ?thesis by (cases oc) (simp_all add: handler_defs)
qed

section \<open>Loading\<close>

text \<open>
  C7. The state of a freshly mounted form is the built-in defaults, in the snapshot and
  in the baseline; once the load has resolved with \<open>s\<close>, both are \<open>s\<close>, whatever the
  state was.
\<close>

theorem defaults_then_persisted:
  "cur_values (Settings_init u g) =
     \<lparr>apiKeys = '''', apiURL = defaultAPIURL u, autoTranslate = defaultAutoTranslate u,
      defaultTranslateMode = Translate,
      defaultTargetLanguage = utils_defaultTargetLanguage u, hotkey = ''''\<rparr>
   \<and> prevValues (Settings_init u g) = cur_values (Settings_init u g)
   \<and> cur_values (step (Loaded b s) st) = s
   \<and> prevValues (step (Loaded b s) st) = s"
  by (simp add: Settings_init_def initialValues_def handler_defs)

section \<open>Submit\<close>

text \<open>
  C2. A submit with data \<open>d\<close> whose write resolves calls \<^verbatim>\<open>setSettings\<close> with \<open>d\<close>, then
  shows the toast \<open>Saved\<close> for 3000 milliseconds, then calls \<^verbatim>\<open>onSave\<close> with \<open>d\<close>, once,
  when the callback was passed, and does nothing else to the outside. A submit whose
  write rejects ends at the \<^verbatim>\<open>await\<close>: the call of \<^verbatim>\<open>setSettings\<close> is all it does.
\<close>

theorem submit_effects_in_order:
  "trace (step (Submit d Resolved) st)
     = trace st @ [SetSettings d, Toast ''Saved'' 3000] @ (if onSave_given st then [OnSave d] else [])
   \<and> trace (step (Submit d Rejected) st) = trace st @ [SetSettings d]"
  by (simp add: step_Submit_trace del: step.simps)

text \<open>A rejected write: neither toast nor callback, although the callback was passed.\<close>

theorem rejected_submit_no_toast_no_onSave:
  "Toast ''Saved'' 3000 \<notin> set (trace (step (Submit example_settings Rejected)
                                          (Settings_init example_utils True)))
   \<and> OnSave example_settings \<notin> set (trace (step (Submit example_settings Rejected)
                                               (Settings_init example_utils True)))"
  by (simp add: step_Submit_trace Settings_init_def del: step.simps)

text \<open>
  C3. After a submit whose write resolves the loading flag is false. After one whose
  write rejects it is true: the rejection ends the handler before
  \<^verbatim>\<open>setLoading(false)\<close>. The rejection is not caught (the handler's promise rejects) and
  nothing is shown.
\<close>

theorem submit_loading_flag:
  "loading (step (Submit d Resolved) st) = False
   \<and> loading (step (Submit d Rejected) st) = True
   \<and> trace (step (Submit d Rejected) st) = trace st @ [SetSettings d]
   \<and> unhandled (step (Submit d Rejected) st) = unhandled st + 1
   \<and> unhandled (step (Submit d Resolved) st) = unhandled st"
  by (simp add: step_Submit_trace step_Submit_loading del: step.simps)

theorem rejected_submit_keeps_loading:
  "loading (step (Submit example_settings Rejected) (Settings_init example_utils True)) = True"
  by (simp add: step_Submit_loading del: step.simps)

text \<open>
  C9. A submit leaves the baseline \<^verbatim>\<open>prevValues\<close> as it is, as a change does; an autosave
  on blur sets it to the snapshot written. So when the snapshot \<open>v\<close> has an API key and
  differs from the baseline, submitting \<open>v\<close> and then blurring a field writes \<open>v\<close> twice.
\<close>

theorem submit_keeps_baseline:
  assumes "apiKeys v \<noteq> []" and "v \<noteq> prevValues st"
  shows "prevValues (step (Submit d oc) st) = prevValues st
   \<and> prevValues (step (Change v') st) = prevValues st
   \<and> prevValues (run [Change v, Blur Resolved] st) = v
   \<and> writes (trace (run [Change v, Submit v Resolved, Blur oc'] st)) = writes (trace st) @ [v, v]"
proof -
  let ?st1 = "step (Change v) st"
  let ?st2 = "step (Submit v Resolved) ?st1"
  have cb: "onBlur_cb ?st2 = \<lparr>cl_values = v, cl_prevValues = prevValues st\<rparr>"
    by (simp only: step_Submit_frame step_Change simp_thms)
  have t2: "writes (trace ?st2) = writes (trace st) @ [v]"
    by (simp only: step_Submit_trace step_Change) simp
  have "trace (step (Blur oc') ?st2) = trace ?st2 @ [SetSettings v]"
    using assms by (simp only: step_Blur_trace cb) simp
  then have w: "writes (trace (step (Blur oc') ?st2)) = writes (trace st) @ [v, v]"
    using t2 by simp
  have b: "prevValues (step (Blur Resolved) ?st1) = v"
    using assms by (simp add: handler_defs)
  from w b show ?thesis
    by (simp add: step_Submit_frame step_Change del: step.simps)
qed

theorem submit_keeps_baseline_witness:
  "apiKeys example_settings \<noteq> []
   \<and> example_settings \<noteq> prevValues (Settings_init example_utils True)
   \<and> prevValues (step (Submit example_settings Resolved) (Settings_init example_utils True))
       = initialValues example_utils
   \<and> writes (trace (run [Change example_settings, Submit example_settings Resolved, Blur Resolved]
                       (Settings_init example_utils True)))
       = [example_settings, example_settings]"
proof -
  have a: "apiKeys example_settings \<noteq> []"
    by (simp add: example_settings_def)
  have b: "example_settings \<noteq> prevValues (Settings_init example_utils True)"
    by (simp add: example_defs)
  have c: "prevValues (Settings_init example_utils True) = initialValues example_utils"
          "trace (Settings_init example_utils True) = []"
    by (simp_all add: Settings_init_def)
  from a b c submit_keeps_baseline [OF a b, of example_settings Resolved example_settings Resolved]
  show ?thesis by (simp del: step.simps run.simps)
qed

section \<open>Autosave on blur\<close>

text \<open>
  A blur that writes is followed, as long as no field changes, by blurs that write the
  same snapshot again: the resolved write moves the baseline in the state, not the one
  in the closure.
\<close>

lemma blur_twice_writes_twice:
  assumes "apiKeys (cl_values (onBlur_cb st)) \<noteq> []"
    and "cl_values (onBlur_cb st) \<noteq> cl_prevValues (onBlur_cb st)"
    and "\<not> values_changed st"
  shows "writes (trace (run [Blur Resolved, Blur oc] st))
           = writes (trace st) @ [cl_values (onBlur_cb st), cl_values (onBlur_cb st)]
         \<and> prevValues (step (Blur Resolved) st) = cl_values (onBlur_cb st)"
proof -
  have cb: "onBlur_cb (step (Blur Resolved) st) = onBlur_cb st"
    using assms by (simp add: handler_defs)
  have p: "prevValues (step (Blur Resolved) st) = cl_values (onBlur_cb st)"
    using assms by (simp add: handler_defs)
  have "trace (step (Blur oc) (step (Blur Resolved) st))
          = trace st @ [SetSettings (cl_values (onBlur_cb st)), SetSettings (cl_values (onBlur_cb st))]"
    using assms by (simp only: step_Blur_trace cb) simp
  with p show ?thesis by (simp del: step.simps)
qed

text \<open>
  C1. After an autosave the baseline in the state is the snapshot written, but
  \<^verbatim>\<open>onBlur\<close> is not created anew (its dependency list is \<^verbatim>\<open>[values]\<close>) and still compares
  with the baseline it captured. Typing an API key and blurring writes once; blurring
  again, with snapshot and baseline equal, writes the same snapshot a second time.
\<close>

theorem blur_writes_again_after_autosave:
  "cur_values (run [Change example_settings, Blur Resolved] (Settings_init example_utils True))
     = example_settings
   \<and> prevValues (run [Change example_settings, Blur Resolved] (Settings_init example_utils True))
     = example_settings
   \<and> writes (trace (run [Change example_settings, Blur Resolved]
                       (Settings_init example_utils True)))
     = [example_settings]
   \<and> writes (trace (run [Change example_settings, Blur Resolved, Blur Resolved]
                       (Settings_init example_utils True)))
     = [example_settings, example_settings]"
  by (simp add: handler_defs example_defs)

text \<open>
  C8. The checkbox calls \<^verbatim>\<open>props.onChange\<close> and then \<^verbatim>\<open>props.onBlur\<close> in one handler
  invocation, before React renders; the \<^verbatim>\<open>onBlur\<close> it calls still holds the snapshot from
  before the toggle, so whether and what it writes does not depend on the new boolean.
  With the persisted settings loaded, switching auto-translate on writes nothing;
  switching it off again writes the snapshot that has it on.
\<close>

theorem toggle_writes_stale_snapshot:
  "fst (AutoTranslateCheckbox_onChange checked st) = fst (onBlur_call st)
   \<and> cur_values (run [Loaded True example_settings, Toggle True Resolved]
                 (Settings_init example_utils True))
     = example_settings\<lparr>autoTranslate := True\<rparr>
   \<and> writes (trace (run [Loaded True example_settings, Toggle True Resolved]
                       (Settings_init example_utils True)))
     = []
   \<and> cur_values (run [Loaded True example_settings, Toggle True Resolved, Toggle False Resolved]
                   (Settings_init example_utils True))
     = example_settings
   \<and> writes (trace (run [Loaded True example_settings, Toggle True Resolved, Toggle False Resolved]
                       (Settings_init example_utils True)))
     = [example_settings\<lparr>autoTranslate := True\<rparr>]"
  by (simp add: handler_defs example_defs)

end
